theory Spec2Isabelle
  imports Main
begin

section \<open>Strings of the page script\<close>

text \<open>
  The search widget of \<^verbatim>\<open>docs/search.js\<close> works on JavaScript strings. A string is
  modelled as a list of characters with codes below 256, the range in which
  \<^verbatim>\<open>String.prototype.toLowerCase\<close> acts on each character by itself and keeps the
  length: the letters A to Z and the Latin-1 capitals (all of 0xC0 to 0xDE but the
  multiplication sign 0xD7) move up by 32, every other character stays.
\<close>

definition lower_char :: "char \<Rightarrow> char" where
  "lower_char c =
     (let n = (of_char c :: nat)
      in if (65 \<le> n \<and> n \<le> 90) \<or> (192 \<le> n \<and> n \<le> 222 \<and> n \<noteq> 215)
         then char_of (n + 32) else c)"

definition toLowerCase :: "string \<Rightarrow> string" where
  "toLowerCase s = map lower_char s"

text \<open>
  \<^verbatim>\<open>s.includes(q)\<close>: some position of \<open>s\<close> starts an occurrence of \<open>q\<close>; the empty
  string occurs everywhere, also in the empty string.
\<close>

fun str_includes :: "string \<Rightarrow> string \<Rightarrow> bool" where
  "str_includes [] q = (q = [])"
| "str_includes (c # cs) q = (take (length q) (c # cs) = q \<or> str_includes cs q)"

section \<open>Values, documents and errors\<close>

text \<open>
  A field of an index entry is a string, or it is missing and reads as \<^verbatim>\<open>undefined\<close>.
  The site generator writes every field as a string; numbers, nested values and
  \<^verbatim>\<open>null\<close> are not part of this model. The field \<^verbatim>\<open>text\<close> is written \<open>text'\<close>.
\<close>

datatype jsval = Undefined | Str string

record document =
  title :: jsval
  text' :: jsval
  url :: jsval
  feed :: jsval

text \<open>
  What \<^verbatim>\<open>response.json()\<close> can yield, and so what the variable \<^verbatim>\<open>searchIndex\<close> can
  hold: the array of entries that the site generator writes, or any other JSON value,
  such as the object of an error report, a string, a number (kept as an integer here), a
  truth value or \<^verbatim>\<open>null\<close>. The script never looks inside a value that is not an
  array.
\<close>

datatype payload =
    JArray "document list"
  | JObject "(string \<times> string) list"
  | JString string
  | JNumber int
  | JBool bool
  | JNull

text \<open>
  What a listener or a promise can fail with: the \<^verbatim>\<open>TypeError\<close> of a method call on
  \<^verbatim>\<open>undefined\<close>, the \<^verbatim>\<open>SyntaxError\<close> of a payload that is not JSON, and the
  rejection of a request that the network did not answer.
\<close>

datatype error = TypeError | SyntaxError | NetworkError

text \<open>Template literals convert a value to a string.\<close>

fun toString :: "jsval \<Rightarrow> string" where
  "toString Undefined = ''undefined''"
| "toString (Str s) = s"

text \<open>
  The script calls \<^verbatim>\<open>toLowerCase\<close> of the runtime in three places. Each function that
  does so is defined first with the lowercasing function as a parameter \<open>lower\<close>, and then
  at \<open>toLowerCase\<close>, which is the runtime's function on strings with codes below 256.
\<close>

text \<open>
  The callback of the filter, lines 22 to 24: \<^verbatim>\<open>item.title.toLowerCase()\<close> raises when
  the title is missing; \<^verbatim>\<open>||\<close> reads \<^verbatim>\<open>item.text\<close> only when the title does not
  contain the query.
\<close>

definition matches_by :: "(string \<Rightarrow> string) \<Rightarrow> string \<Rightarrow> document \<Rightarrow> error + bool" where
  "matches_by lower query item =
     (case title item of
        Undefined \<Rightarrow> Inl TypeError
      | Str t \<Rightarrow>
          if str_includes (lower t) query then Inr True
          else (case text' item of
                  Undefined \<Rightarrow> Inl TypeError
                | Str b \<Rightarrow> Inr (str_includes (lower b) query)))"

definition matches :: "string \<Rightarrow> document \<Rightarrow> error + bool" where
  "matches = matches_by toLowerCase"

text \<open>
  \<^verbatim>\<open>Array.prototype.filter\<close> with a callback that may raise: the elements are visited
  in order, the first exception ends the call, and the kept elements form a new array.
\<close>

fun array_filter :: "('a \<Rightarrow> error + bool) \<Rightarrow> 'a list \<Rightarrow> error + 'a list" where
  "array_filter p [] = Inr []"
| "array_filter p (x # xs) =
     (case p x of
        Inl e \<Rightarrow> Inl e
      | Inr keep \<Rightarrow>
          (case array_filter p xs of
             Inl e \<Rightarrow> Inl e
           | Inr ys \<Rightarrow> Inr (if keep then x # ys else ys)))"

text \<open>
  \<^verbatim>\<open>searchIndex.filter(...).slice(0, 10)\<close>, lines 22 to 25. Only an array has the
  method \<^verbatim>\<open>filter\<close>: on any other value the call raises a \<^verbatim>\<open>TypeError\<close>.
\<close>

definition search_by :: "(string \<Rightarrow> string) \<Rightarrow> payload \<Rightarrow> string \<Rightarrow> error + document list" where
  "search_by lower idx query =
     (case idx of
        JArray items \<Rightarrow>
          (case array_filter (matches_by lower query) items of
             Inl e \<Rightarrow> Inl e
           | Inr found \<Rightarrow> Inr (take 10 found))
      | _ \<Rightarrow> Inl TypeError)"

definition search :: "payload \<Rightarrow> string \<Rightarrow> error + document list" where
  "search = search_by toLowerCase"

section \<open>The page\<close>

text \<open>
  An element made by \<^verbatim>\<open>document.createElement\<close>, with the markup assigned to its
  \<^verbatim>\<open>innerHTML\<close> kept as the string it was given.
\<close>

record element =
  tagName :: string
  className :: string
  innerHTML :: string

text \<open>
  The state the script reads and writes: the variable \<^verbatim>\<open>searchIndex\<close>; the class
  list of the result region; the region's content, as the markup last assigned to its
  \<^verbatim>\<open>innerHTML\<close> followed by the elements appended since; the lines written by
  \<^verbatim>\<open>console.error\<close>; and the addresses requested with \<^verbatim>\<open>fetch\<close>.
\<close>

record page =
  searchIndex :: payload
  classList :: "string list"
  markup :: string
  appended :: "element list"
  console :: "(string \<times> error) list"
  requests :: "string list"

definition classList_add :: "string \<Rightarrow> string list \<Rightarrow> string list" where
  "classList_add c cl = (if c \<in> set cl then cl else cl @ [c])"

definition classList_remove :: "string \<Rightarrow> string list \<Rightarrow> string list" where
  "classList_remove c cl = removeAll c cl"

definition set_innerHTML :: "string \<Rightarrow> page \<Rightarrow> page" where
  "set_innerHTML m s = s\<lparr>markup := m, appended := []\<rparr>"

definition appendChild :: "element \<Rightarrow> page \<Rightarrow> page" where
  "appendChild el s = s\<lparr>appended := appended s @ [el]\<rparr>"

definition no_results :: string where
  \<open>no_results = ''<div class="no-results">No results found</div>''\<close>

text \<open>The body of the \<^verbatim>\<open>forEach\<close> callback, lines 36 to 39.\<close>

definition result_item :: "document \<Rightarrow> element" where
  \<open>result_item item =
     \<lparr>tagName = ''div'',
      className = ''search-result-item'',
      innerHTML = ''<a href="'' @ toString (url item) @ ''">'' @ toString (title item)
        @ ''</a><span class="search-feed">'' @ toString (feed item) @ ''</span>''\<rparr>\<close>

definition displayResults :: "document list \<Rightarrow> page \<Rightarrow> page" where
  "displayResults results s =
     (let s1 = set_innerHTML [] s;
          s2 = (if length results = 0 then set_innerHTML no_results s1
                else fold (\<lambda>item. appendChild (result_item item)) results s1)
      in s2\<lparr>classList := classList_remove ''hidden'' (classList s2)\<rparr>)"

text \<open>
  The \<^verbatim>\<open>input\<close> listener, lines 14 to 28, on the value of the input control. It
  returns the exception that left the listener, if one did, and the page as the listener
  left it.
\<close>

definition onInput_by :: "(string \<Rightarrow> string) \<Rightarrow> string \<Rightarrow> page \<Rightarrow> error option \<times> page" where
  "onInput_by lower v s =
     (let query = lower v
      in if length query < 2
         then (None, set_innerHTML [] (s\<lparr>classList := classList_add ''hidden'' (classList s)\<rparr>))
         else (case search_by lower (searchIndex s) query of
                 Inl e \<Rightarrow> (Some e, s)
               | Inr results \<Rightarrow> (None, displayResults results s)))"

definition onInput :: "string \<Rightarrow> page \<Rightarrow> error option \<times> page" where
  "onInput = onInput_by toLowerCase"

text \<open>
  Where a click can land, as far as the listener of lines 46 to 50 tells: on the input
  control (which has no descendants), on the result region, on something inside the
  region, or elsewhere on the page.
\<close>

datatype target = InputControl | ResultRegion | InsideResultRegion | Elsewhere

fun searchInput_contains :: "target \<Rightarrow> bool" where
  "searchInput_contains InputControl = True"
| "searchInput_contains _ = False"

fun resultsDiv_contains :: "target \<Rightarrow> bool" where
  "resultsDiv_contains ResultRegion = True"
| "resultsDiv_contains InsideResultRegion = True"
| "resultsDiv_contains _ = False"

definition onClick :: "target \<Rightarrow> page \<Rightarrow> page" where
  "onClick t s =
     (if \<not> searchInput_contains t \<and> \<not> resultsDiv_contains t
      then s\<lparr>classList := classList_add ''hidden'' (classList s)\<rparr>
      else s)"

section \<open>Loading the index\<close>

datatype 'a promise = Fulfilled 'a | Rejected error

datatype response = Response (json: "payload promise")

text \<open>
  The \<^verbatim>\<open>DOMContentLoaded\<close> listener, lines 1 to 12: the index starts empty and one
  request for \<^verbatim>\<open>search.json\<close> is made. The class list and the content of the result
  region are those of the host page.
\<close>

definition DOMContentLoaded :: "string list \<Rightarrow> string \<Rightarrow> page" where
  "DOMContentLoaded cl m =
     \<lparr>searchIndex = JArray [], classList = cl, markup = m, appended = [],
      console = [], requests = [''search.json'']\<rparr>"

definition console_error :: "string \<Rightarrow> error \<Rightarrow> page \<Rightarrow> page" where
  "console_error msg err s = s\<lparr>console := console s @ [(msg, err)]\<rparr>"

text \<open>
  The promise chain of lines 7 to 12, run when the request settles: a rejected request
  and a rejected \<^verbatim>\<open>response.json()\<close> both end in the \<^verbatim>\<open>catch\<close> handler. A
  payload that parses is stored as it is, line 10, array or not.
\<close>

definition fetch_settled :: "response promise \<Rightarrow> page \<Rightarrow> page" where
  "fetch_settled p s =
     (case p of
        Rejected err \<Rightarrow> console_error ''Failed to load search index'' err s
      | Fulfilled r \<Rightarrow>
          (case json r of
             Rejected err \<Rightarrow> console_error ''Failed to load search index'' err s
           | Fulfilled data \<Rightarrow> s\<lparr>searchIndex := data\<rparr>))"

text \<open>
  The events of the user. An exception that leaves a listener is reported by the
  browser and the page goes on as the listener left it.
\<close>

datatype event = Input string | Click target

fun dispatch :: "event \<Rightarrow> page \<Rightarrow> page" where
  "dispatch (Input v) s = snd (onInput v s)"
| "dispatch (Click t) s = onClick t s"

definition run :: "event list \<Rightarrow> page \<Rightarrow> page" where
  "run evs s = fold dispatch evs s"

section \<open>Vocabulary of the properties\<close>

text \<open>
  The containment test in the words of the specification: the lowercased title, or the
  lowercased text, contains the lowercased query. A missing field contains nothing.
\<close>

definition title_contains :: "string \<Rightarrow> document \<Rightarrow> bool" where
  "title_contains q d =
     (case title d of Undefined \<Rightarrow> False | Str t \<Rightarrow> str_includes (toLowerCase t) (toLowerCase q))"

definition text_contains :: "string \<Rightarrow> document \<Rightarrow> bool" where
  "text_contains q d =
     (case text' d of Undefined \<Rightarrow> False | Str b \<Rightarrow> str_includes (toLowerCase b) (toLowerCase q))"

definition contains_query :: "string \<Rightarrow> document \<Rightarrow> bool" where
  "contains_query q d = (title_contains q d \<or> text_contains q d)"

text \<open>An entry whose title and text are both strings.\<close>

definition string_fields :: "document \<Rightarrow> bool" where
  "string_fields d = (title d \<noteq> Undefined \<and> text' d \<noteq> Undefined)"

text \<open>
  An entry the filter callback gets through: the title is a string, and the text is a
  string unless the title already contains the query.
\<close>

definition readable :: "string \<Rightarrow> document \<Rightarrow> bool" where
  "readable q d = (title d \<noteq> Undefined \<and> (title_contains q d \<or> text' d \<noteq> Undefined))"

text \<open>
  The positions of the index that a query is to return: the first ten positions, in
  increasing order, whose document satisfies the containment test.
\<close>

definition returned :: "string \<Rightarrow> document list \<Rightarrow> nat list" where
  "returned q idx = take 10 (filter (\<lambda>i. contains_query q (idx ! i)) [0..<length idx])"

text \<open>
  The number of documents before position \<open>i\<close> that satisfy the containment test.
\<close>

definition earlier_matches :: "string \<Rightarrow> document list \<Rightarrow> nat \<Rightarrow> nat" where
  "earlier_matches q idx i = length (filter (contains_query q) (take i idx))"

text \<open>The region after a query below the minimum length: hidden and empty.\<close>

definition hide_and_clear :: "page \<Rightarrow> page" where
  "hide_and_clear s =
     s\<lparr>classList := classList_add ''hidden'' (classList s), markup := [], appended := []\<rparr>"

subsection \<open>Example data\<close>

definition episode :: "string \<Rightarrow> string \<Rightarrow> document" where
  "episode t b = \<lparr>title = Str t, text' = Str b, url = Str ''/e1'', feed = Str ''ShowA''\<rparr>"

text \<open>Eleven different episodes, each with the word "the" in its title.\<close>

definition eleven :: "document list" where
  "eleven =
     [episode ''The A'' ''a'', episode ''The B'' ''b'', episode ''The C'' ''c'',
      episode ''The D'' ''d'', episode ''The E'' ''e'', episode ''The F'' ''f'',
      episode ''The G'' ''g'', episode ''The H'' ''h'', episode ''The I'' ''i'',
      episode ''The J'' ''j'', episode ''The K'' ''k'']"

text \<open>Entries with a missing field.\<close>

definition untitled :: document where
  "untitled = \<lparr>title = Undefined, text' = Str ''discusses cats'', url = Str ''/e1'', feed = Str ''ShowA''\<rparr>"

definition bare :: document where
  "bare = \<lparr>title = Str ''<b>Cats</b>'', text' = Undefined, url = Undefined, feed = Undefined\<rparr>"

text \<open>
  A payload that parses and is not an array: the report of an error, and the page of a
  host whose region starts hidden and empty once such a payload has arrived.
\<close>

definition error_report :: payload where
  "error_report = JObject [(''error'', ''not found'')]"

definition misloaded :: "payload \<Rightarrow> page" where
  "misloaded p =
     fetch_settled (Fulfilled (Response (Fulfilled p))) (DOMContentLoaded [''hidden''] [])"

text \<open>
  A lowercasing function that lengthens its argument: it writes the capital I as two
  characters, as the runtime writes the capital I with a dot above as an i and a
  combining dot.
\<close>

definition dotted_lower :: "string \<Rightarrow> string" where
  "dotted_lower s = concat (map (\<lambda>c. if c = CHR ''I'' then ''i.'' else [lower_char c]) s)"

text \<open>The page of a host whose region starts hidden and empty, once an index has arrived.\<close>

definition loaded :: "document list \<Rightarrow> page" where
  "loaded idx =
     fetch_settled (Fulfilled (Response (Fulfilled (JArray idx)))) (DOMContentLoaded [''hidden''] [])"

section \<open>Lemmas on strings and arrays\<close>

lemma length_toLowerCase: "length (toLowerCase s) = length s"
  by (simp add: toLowerCase_def)

lemma toLowerCase_append: "toLowerCase (a @ b) = toLowerCase a @ toLowerCase b"
  by (simp add: toLowerCase_def)

text \<open>\<open>str_includes\<close> is the substring relation.\<close>

lemma str_includes_iff: "str_includes s q \<longleftrightarrow> (\<exists>ps ss. s = ps @ q @ ss)"
proof (induction s)
  case Nil
  then show ?case by auto
next
  case (Cons c cs)
  have here: "take (length q) (c # cs) = q \<longleftrightarrow> (\<exists>ss. c # cs = q @ ss)"
    by (metis append_eq_conv_conj)
  have "(\<exists>ps ss. c # cs = ps @ q @ ss) \<longleftrightarrow>
      (\<exists>ss. c # cs = q @ ss) \<or> (\<exists>ps ss. cs = ps @ q @ ss)"
  proof
    assume "\<exists>ps ss. c # cs = ps @ q @ ss"
    then obtain ps ss where h: "c # cs = ps @ q @ ss" by blast
    show "(\<exists>ss. c # cs = q @ ss) \<or> (\<exists>ps ss. cs = ps @ q @ ss)"
    proof (cases ps)
      case Nil
      with h show ?thesis by auto
    next
      case (Cons p ps')
      with h have "cs = ps' @ q @ ss" by simp
      then show ?thesis by blast
    qed
  next
    assume "(\<exists>ss. c # cs = q @ ss) \<or> (\<exists>ps ss. cs = ps @ q @ ss)"
    then show "\<exists>ps ss. c # cs = ps @ q @ ss"
    proof
      assume "\<exists>ss. c # cs = q @ ss"
      then obtain ss where "c # cs = [] @ q @ ss" by auto
      then show ?thesis by blast
    next
      assume "\<exists>ps ss. cs = ps @ q @ ss"
      then obtain ps ss where "cs = ps @ q @ ss" by blast
      then have "c # cs = (c # ps) @ q @ ss" by simp
      then show ?thesis by blast
    qed
  qed
  with here show ?case using Cons.IH by simp
qed

lemma array_filter_total:
  "(\<And>x. x \<in> set xs \<Longrightarrow> p x = Inr (P x)) \<Longrightarrow> array_filter p xs = Inr (filter P xs)"
  by (induction xs) auto

lemma array_filter_Inr_iff:
  "(\<exists>ys. array_filter p xs = Inr ys) \<longleftrightarrow> (\<forall>x \<in> set xs. \<exists>b. p x = Inr b)"
  by (induction xs) (auto split: sum.splits)

lemma array_filter_Inl:
  "array_filter p xs = Inl e \<Longrightarrow> \<exists>x \<in> set xs. p x = Inl e"
  by (induction xs) (auto split: sum.splits)

lemma fold_appendChild:
  "fold (\<lambda>item. appendChild (f item)) xs s = s\<lparr>appended := appended s @ map f xs\<rparr>"
  by (induction xs arbitrary: s) (auto simp: appendChild_def)

text \<open>Filtering a list is filtering its positions.\<close>

lemma filter_by_position:
  "filter P xs = map ((!) xs) (filter (\<lambda>i. P (xs ! i)) [0..<length xs])"
proof -
  have "filter P (map ((!) xs) [0..<length xs])
      = map ((!) xs) (filter (P \<circ> (!) xs) [0..<length xs])"
    by (rule filter_map)
  then show ?thesis by (simp add: map_nth comp_def)
qed

lemma count_earlier:
  assumes le: "i \<le> length xs"
  shows "length (filter (\<lambda>j. P (xs ! j)) [0..<i]) = length (filter P (take i xs))"
proof -
  have "filter P (take i xs)
      = map ((!) (take i xs)) (filter (\<lambda>j. P (take i xs ! j)) [0..<length (take i xs)])"
    by (rule filter_by_position)
  also have "length \<dots> = length (filter (\<lambda>j. P (take i xs ! j)) [0..<i])"
    using le by (simp add: min_absorb2)
  also have "filter (\<lambda>j. P (take i xs ! j)) [0..<i] = filter (\<lambda>j. P (xs ! j)) [0..<i]"
    by (rule filter_cong) auto
  finally show ?thesis by simp
qed

text \<open>
  A position that passes the test is among the first \<open>k\<close> passing positions exactly when
  fewer than \<open>k\<close> positions before it pass.
\<close>

lemma mem_take_filter_upt:
  assumes "i < n" "Q i"
  shows "i \<in> set (take k (filter Q [0..<n])) \<longleftrightarrow> length (filter Q [0..<i]) < k"
proof -
  have split: "[0..<n] = [0..<i] @ i # [Suc i..<n]"
    using assms(1) by (metis less_imp_le_nat upt_add_eq_append upt_conv_Cons le0 le_Suc_ex)
  let ?A = "filter Q [0..<i]" and ?B = "filter Q [Suc i..<n]"
  have f: "filter Q [0..<n] = ?A @ i # ?B"
    using assms(2) by (simp add: split)
  have nA: "i \<notin> set ?A" by simp
  show ?thesis
  proof (cases "length ?A < k")
    case True
    then have "take k (?A @ i # ?B) = ?A @ take (k - length ?A) (i # ?B)" by simp
    moreover from True obtain m where "k - length ?A = Suc m"
      by (metis Suc_diff_Suc)
    ultimately show ?thesis using True by (simp add: f)
  next
    case False
    then have "take k (?A @ i # ?B) = take k ?A" by simp
    moreover have "set (take k ?A) \<subseteq> set ?A" by (rule set_take_subset)
    ultimately have "set (take k (filter Q [0..<n])) \<subseteq> set ?A"
      by (simp only: f)
    with nA False show ?thesis by auto
  qed
qed

section \<open>Lemmas on the query\<close>

lemma matches_unfold:
  "matches query item =
     (case title item of
        Undefined \<Rightarrow> Inl TypeError
      | Str t \<Rightarrow>
          if str_includes (toLowerCase t) query then Inr True
          else (case text' item of
                  Undefined \<Rightarrow> Inl TypeError
                | Str b \<Rightarrow> Inr (str_includes (toLowerCase b) query)))"
  unfolding matches_def matches_by_def by (rule refl)

lemma search_unfold:
  "search idx query =
     (case idx of
        JArray items \<Rightarrow>
          (case array_filter (matches query) items of
             Inl e \<Rightarrow> Inl e
           | Inr found \<Rightarrow> Inr (take 10 found))
      | _ \<Rightarrow> Inl TypeError)"
  unfolding search_def search_by_def matches_def by (rule refl)

lemma search_not_array: "(\<And>items. idx \<noteq> JArray items) \<Longrightarrow> search idx query = Inl TypeError"
  by (cases idx) (auto simp: search_unfold)

lemma onInput_unfold:
  "onInput v s =
     (let query = toLowerCase v
      in if length query < 2
         then (None, set_innerHTML [] (s\<lparr>classList := classList_add ''hidden'' (classList s)\<rparr>))
         else (case search (searchIndex s) query of
                 Inl e \<Rightarrow> (Some e, s)
               | Inr results \<Rightarrow> (None, displayResults results s)))"
  unfolding onInput_def onInput_by_def search_def by (rule refl)

lemma matches_readable:
  "readable q d \<Longrightarrow> matches (toLowerCase q) d = Inr (contains_query q d)"
  by (cases "title d"; cases "text' d")
     (auto simp: readable_def matches_unfold contains_query_def title_contains_def text_contains_def)

lemma matches_unreadable:
  "\<not> readable q d \<Longrightarrow> matches (toLowerCase q) d = Inl TypeError"
  by (cases "title d"; cases "text' d")
     (auto simp: readable_def matches_unfold title_contains_def)

lemma string_fields_readable: "string_fields d \<Longrightarrow> readable q d"
  by (simp add: string_fields_def readable_def)

text \<open>What the filter and the slice compute, for every index.\<close>

lemma search_eq:
  "search (JArray idx) (toLowerCase q) =
     (if list_all (readable q) idx then Inr (take 10 (filter (contains_query q) idx))
      else Inl TypeError)"
proof (cases "list_all (readable q) idx")
  case True
  then have "array_filter (matches (toLowerCase q)) idx = Inr (filter (contains_query q) idx)"
    by (intro array_filter_total matches_readable) (simp add: list_all_iff)
  with True show ?thesis by (simp add: search_unfold)
next
  case False
  then obtain d where d: "d \<in> set idx" "\<not> readable q d"
    by (auto simp: list_all_iff)
  then have "\<not> (\<exists>b. matches (toLowerCase q) d = Inr b)"
    by (simp add: matches_unreadable)
  with d(1) have "\<not> (\<exists>ys. array_filter (matches (toLowerCase q)) idx = Inr ys)"
    by (auto simp: array_filter_Inr_iff)
  then obtain e where e: "array_filter (matches (toLowerCase q)) idx = Inl e"
    by (cases "array_filter (matches (toLowerCase q)) idx") auto
  then obtain x where "x \<in> set idx" "matches (toLowerCase q) x = Inl e"
    using array_filter_Inl by blast
  then have "e = TypeError"
    by (cases "readable q x") (simp_all add: matches_readable matches_unreadable)
  with e False show ?thesis by (simp add: search_unfold)
qed

lemma displayResults_eq:
  "displayResults results s =
     (if results = []
      then s\<lparr>classList := classList_remove ''hidden'' (classList s),
             markup := no_results, appended := []\<rparr>
      else s\<lparr>classList := classList_remove ''hidden'' (classList s),
             markup := [], appended := map result_item results\<rparr>)"
  by (simp add: displayResults_def set_innerHTML_def fold_appendChild Let_def)

lemma onInput_short:
  "length (toLowerCase v) < 2 \<Longrightarrow> onInput v s = (None, hide_and_clear s)"
  by (simp add: onInput_unfold hide_and_clear_def set_innerHTML_def Let_def)

lemma onInput_long:
  "2 \<le> length (toLowerCase v) \<Longrightarrow> searchIndex s = JArray idx \<Longrightarrow>
   onInput v s =
     (if list_all (readable v) idx
      then (None, displayResults (take 10 (filter (contains_query v) idx)) s)
      else (Some TypeError, s))"
  by (simp add: onInput_unfold Let_def search_eq)

lemma onInput_not_array:
  "2 \<le> length (toLowerCase v) \<Longrightarrow> (\<And>items. searchIndex s \<noteq> JArray items) \<Longrightarrow>
   onInput v s = (Some TypeError, s)"
  by (simp add: onInput_unfold Let_def search_not_array)

text \<open>The three ways the input listener can end.\<close>

lemma onInput_outcomes:
  "onInput v s = (None, hide_and_clear s)
   \<or> (\<exists>r. onInput v s = (None, displayResults r s))
   \<or> onInput v s = (Some TypeError, s)"
proof (cases "length (toLowerCase v) < 2")
  case True
  then show ?thesis by (simp add: onInput_short)
next
  case False
  then have long: "2 \<le> length (toLowerCase v)" by simp
  show ?thesis
  proof (cases "\<exists>items. searchIndex s = JArray items")
    case True
    then obtain items where "searchIndex s = JArray items" by blast
    from onInput_long [OF long this] show ?thesis
      by (cases "list_all (readable v) items") auto
  next
    case False
    then show ?thesis by (simp add: onInput_not_array [OF long])
  qed
qed

lemma searchIndex_displayResults: "searchIndex (displayResults r s) = searchIndex s"
  by (simp add: displayResults_eq)

lemma searchIndex_onInput: "searchIndex (snd (onInput v s)) = searchIndex s"
  using onInput_outcomes [of v s]
  by (auto simp: hide_and_clear_def searchIndex_displayResults)

lemma searchIndex_onClick: "searchIndex (onClick t s) = searchIndex s"
  by (simp add: onClick_def)

lemma searchIndex_run: "searchIndex (run evs s) = searchIndex s"
  unfolding run_def
proof (induction evs arbitrary: s)
  case Nil
  then show ?case by simp
next
  case (Cons ev evs)
  then show ?case
    by (cases ev) (simp_all add: searchIndex_onInput searchIndex_onClick)
qed

lemma searchIndex_loaded: "searchIndex (loaded idx) = JArray idx"
  by (simp add: loaded_def fetch_settled_def DOMContentLoaded_def)

lemma classList_add_idem: "classList_add c (classList_add c cl) = classList_add c cl"
  by (simp add: classList_add_def)

lemma classList_add_mem: "c \<in> set (classList_add c cl)"
  by (simp add: classList_add_def)

lemma classList_remove_idem: "classList_remove c (classList_remove c cl) = classList_remove c cl"
  by (simp add: classList_remove_def)

lemma classList_remove_mem: "c \<notin> set (classList_remove c cl)"
  by (simp add: classList_remove_def)

lemma hide_and_clear_idem: "hide_and_clear (hide_and_clear s) = hide_and_clear s"
  by (simp add: hide_and_clear_def classList_add_idem)

lemma displayResults_idem: "displayResults r (displayResults r s) = displayResults r s"
  by (simp add: displayResults_eq classList_remove_idem)

lemma requests_onInput: "requests (snd (onInput v s)) = requests s"
  using onInput_outcomes [of v s]
  by (auto simp: hide_and_clear_def displayResults_eq)

lemma console_onInput: "console (snd (onInput v s)) = console s"
  using onInput_outcomes [of v s]
  by (auto simp: hide_and_clear_def displayResults_eq)

lemma requests_run: "requests (run evs s) = requests s"
  unfolding run_def
proof (induction evs arbitrary: s)
  case Nil
  then show ?case by simp
next
  case (Cons ev evs)
  then show ?case
    by (cases ev) (simp_all add: requests_onInput onClick_def)
qed

lemma console_run: "console (run evs s) = console s"
  unfolding run_def
proof (induction evs arbitrary: s)
  case Nil
  then show ?case by simp
next
  case (Cons ev evs)
  then show ?case
    by (cases ev) (simp_all add: console_onInput onClick_def)
qed

lemma search_empty: "search (JArray []) query = Inr []"
  by (simp add: search_unfold)

lemma onInput_empty_index:
  "searchIndex s = JArray [] \<Longrightarrow>
   onInput v s =
     (None, if length (toLowerCase v) < 2 then hide_and_clear s else displayResults [] s)"
  by (simp add: onInput_unfold search_empty hide_and_clear_def set_innerHTML_def Let_def)

lemma toLowerCase_Cons: "toLowerCase (c # v) = lower_char c # toLowerCase v"
  by (simp add: toLowerCase_def)

lemma lower_char_space: "lower_char CHR '' '' = CHR '' ''"
  by code_simp

lemma contains_query_strings:
  "title d = Str t \<Longrightarrow> text' d = Str b \<Longrightarrow>
   contains_query q d \<longleftrightarrow>
     str_includes (toLowerCase t) (toLowerCase q) \<or> str_includes (toLowerCase b) (toLowerCase q)"
  by (simp add: contains_query_def title_contains_def text_contains_def)

text \<open>The filter on entries with string title and text, for any lowercasing function.\<close>

lemma matches_by_strings:
  "title d = Str t \<Longrightarrow> text' d = Str b \<Longrightarrow>
   matches_by lower query d = Inr (str_includes (lower t) query \<or> str_includes (lower b) query)"
  by (simp add: matches_by_def)

lemma search_by_strings:
  assumes strs: "list_all string_fields idx"
  shows "search_by lower (JArray idx) query
    = Inr (take 10 (filter (\<lambda>d. \<exists>t b. title d = Str t \<and> text' d = Str b
            \<and> (str_includes (lower t) query \<or> str_includes (lower b) query)) idx))"
proof -
  let ?P = "\<lambda>d. \<exists>t b. title d = Str t \<and> text' d = Str b
            \<and> (str_includes (lower t) query \<or> str_includes (lower b) query)"
  have "array_filter (matches_by lower query) idx = Inr (filter ?P idx)"
  proof (rule array_filter_total)
    fix d assume "d \<in> set idx"
    with strs have "string_fields d" by (simp add: list_all_iff)
    then obtain t b where tb: "title d = Str t" "text' d = Str b"
      by (cases "title d"; cases "text' d") (auto simp: string_fields_def)
    then show "matches_by lower query d = Inr (?P d)"
      by (simp add: matches_by_strings [OF tb])
  qed
  then show ?thesis by (simp add: search_by_def)
qed

section \<open>The claims\<close>

text \<open>
  C1 (as amended). For every index whose documents all have a string title and a string
  text, and every query of length at least 2, the query returns the documents at the
  positions \<open>returned q idx\<close>, and the listener renders them without raising. Every
  returned document satisfies the containment test; the returned positions are strictly
  increasing positions of the index, at most ten; and a position whose document satisfies
  the test is returned exactly when fewer than ten earlier documents satisfy it, that is,
  it is omitted exactly when at least ten earlier documents satisfy it. The returned
  documents are the first ten of the documents that satisfy the test, and the test is
  that the lowercased query is a substring of the lowercased title or of the lowercased
  text.
\<close>

theorem query_returns_first_ten_matches:
  assumes strs: "list_all string_fields idx" and len: "2 \<le> length q"
    and idx: "searchIndex s = JArray idx"
  shows "search (JArray idx) (toLowerCase q) = Inr (map ((!) idx) (returned q idx))
       \<and> onInput q s = (None, displayResults (map ((!) idx) (returned q idx)) s)
       \<and> list_all (contains_query q) (map ((!) idx) (returned q idx))
       \<and> sorted_wrt (<) (returned q idx)
       \<and> list_all (\<lambda>i. i < length idx) (returned q idx)
       \<and> length (returned q idx) \<le> 10
       \<and> (\<forall>i. i < length idx \<and> contains_query q (idx ! i) \<longrightarrow>
             (i \<in> set (returned q idx) \<longleftrightarrow> earlier_matches q idx i < 10))
       \<and> map ((!) idx) (returned q idx) = take 10 (filter (contains_query q) idx)
       \<and> (title d = Str t \<and> text' d = Str b \<longrightarrow>
             (contains_query q d \<longleftrightarrow>
                (\<exists>ps ss. toLowerCase t = ps @ toLowerCase q @ ss)
                \<or> (\<exists>ps ss. toLowerCase b = ps @ toLowerCase q @ ss)))"
proof -
  let ?Q = "\<lambda>i. contains_query q (idx ! i)"
  have rd: "list_all (readable q) idx"
    using strs by (simp add: list_all_iff string_fields_readable)
  have res: "take 10 (filter (contains_query q) idx) = map ((!) idx) (returned q idx)"
    by (simp add: returned_def take_map filter_by_position [of "contains_query q" idx])
  have a: "search (JArray idx) (toLowerCase q) = Inr (map ((!) idx) (returned q idx))"
    using rd by (simp add: search_eq res)
  have long: "2 \<le> length (toLowerCase q)"
    using len by (simp add: length_toLowerCase)
  have b: "onInput q s = (None, displayResults (map ((!) idx) (returned q idx)) s)"
    using rd by (simp add: onInput_long [OF long idx] res)
  have sub: "set (returned q idx) \<subseteq> set (filter ?Q [0..<length idx])"
    unfolding returned_def by (rule set_take_subset)
  have c: "list_all (contains_query q) (map ((!) idx) (returned q idx))"
    using sub by (auto simp: list_all_iff)
  have "sorted_wrt (<) (filter ?Q [0..<length idx])"
    by (simp add: sorted_wrt_filter)
  then have d: "sorted_wrt (<) (returned q idx)"
    unfolding returned_def by (rule sorted_wrt_take)
  have e: "list_all (\<lambda>i. i < length idx) (returned q idx)"
    using sub by (auto simp: list_all_iff)
  have f: "length (returned q idx) \<le> 10"
    by (simp add: returned_def)
  have g: "\<forall>i. i < length idx \<and> contains_query q (idx ! i) \<longrightarrow>
             (i \<in> set (returned q idx) \<longleftrightarrow> earlier_matches q idx i < 10)"
  proof (intro allI impI)
    fix i assume h: "i < length idx \<and> contains_query q (idx ! i)"
    then have "i \<in> set (take 10 (filter ?Q [0..<length idx])) \<longleftrightarrow> length (filter ?Q [0..<i]) < 10"
      by (intro mem_take_filter_upt) simp_all
    moreover have "length (filter ?Q [0..<i]) = length (filter (contains_query q) (take i idx))"
      using h by (intro count_earlier) simp
    ultimately show "i \<in> set (returned q idx) \<longleftrightarrow> earlier_matches q idx i < 10"
      by (simp add: returned_def earlier_matches_def)
  qed
  have h: "title d = Str t \<and> text' d = Str b \<longrightarrow>
             (contains_query q d \<longleftrightarrow>
                (\<exists>ps ss. toLowerCase t = ps @ toLowerCase q @ ss)
                \<or> (\<exists>ps ss. toLowerCase b = ps @ toLowerCase q @ ss))"
    by (simp add: contains_query_strings str_includes_iff)
  from a b c d e f g res h show ?thesis by simp
qed

lemma eleven_strings: "list_all string_fields eleven"
  by (simp add: eleven_def episode_def string_fields_def)

lemma returned_eleven: "returned ''THE'' eleven = [0, 1, 2, 3, 4, 5, 6, 7, 8, 9]"
  by code_simp

lemma earlier_eleven: "earlier_matches ''THE'' eleven 10 = 10"
  by code_simp

theorem query_returns_first_ten_matches_witness:
  "list_all string_fields eleven \<and> 2 \<le> length ''THE''
   \<and> search (JArray eleven) (toLowerCase ''THE'') = Inr (take 10 eleven)
   \<and> fst (onInput ''THE'' (loaded eleven)) = None
   \<and> appended (snd (onInput ''THE'' (loaded eleven))) = map result_item (take 10 eleven)
   \<and> (10 \<in> set (returned ''THE'' eleven)) = (earlier_matches ''THE'' eleven 10 < 10)"
proof -
  have idx: "searchIndex (loaded eleven) = JArray eleven"
    by (rule searchIndex_loaded)
  have len: "2 \<le> length ''THE''" by simp
  have m: "map ((!) eleven) [0, 1, 2, 3, 4, 5, 6, 7, 8, 9] = take 10 eleven"
    by (simp add: eleven_def)
  have cq: "10 < length eleven \<and> contains_query ''THE'' (eleven ! 10)"
    by code_simp
  note t = query_returns_first_ten_matches [OF eleven_strings len idx,
      where d = "episode ''The A'' ''a''" and t = "''The A''" and b = "''a''"]
  from t have "search (JArray eleven) (toLowerCase ''THE'') = Inr (take 10 eleven)"
    by (simp only: returned_eleven m)
  moreover from t have "onInput ''THE'' (loaded eleven) = (None, displayResults (take 10 eleven) (loaded eleven))"
    by (simp only: returned_eleven m)
  then have "fst (onInput ''THE'' (loaded eleven)) = None"
    and "appended (snd (onInput ''THE'' (loaded eleven))) = map result_item (take 10 eleven)"
    by (simp_all add: displayResults_eq eleven_def)
  moreover from t cq have "(10 \<in> set (returned ''THE'' eleven)) = (earlier_matches ''THE'' eleven 10 < 10)"
    by blast
  ultimately show ?thesis using eleven_strings len by blast
qed

text \<open>
  C1 as stated asks for more than ten earlier matches before a matching document may be
  omitted. With eleven matching documents the eleventh is omitted although exactly ten
  earlier documents match.
\<close>

theorem eleventh_match_dropped_after_ten:
  "search (JArray eleven) (toLowerCase ''the'') = Inr (take 10 eleven)
   \<and> contains_query ''the'' (eleven ! 10)
   \<and> eleven ! 10 \<notin> set (take 10 eleven)
   \<and> earlier_matches ''the'' eleven 10 = 10
   \<and> \<not> 10 < earlier_matches ''the'' eleven 10"
  by code_simp

text \<open>
  C2 (as amended). For every query of length at least 2 and every index that is an array
  of entries, the listener completes without
  raising exactly when every entry of the index has a string title and, unless that title
  contains the query, a string text; otherwise it raises a \<^verbatim>\<open>TypeError\<close> and leaves
  the page as it was. In particular it completes for every index whose entries all have
  a string title and a string text, whatever their url and feed, and then renders the
  first ten matches. A missing url or feed is rendered as the text
  \<^verbatim>\<open>undefined\<close>, not as a blank.
\<close>

theorem query_raises_on_missing_title_or_text:
  assumes len: "2 \<le> length q" and idx: "searchIndex s = JArray idx"
  shows \<open>(fst (onInput q s) = None \<longleftrightarrow> list_all (readable q) idx)
       \<and> (fst (onInput q s) = None \<or> onInput q s = (Some TypeError, s))
       \<and> (list_all string_fields idx \<longrightarrow>
            fst (onInput q s) = None
            \<and> appended (snd (onInput q s))
                = map result_item (take 10 (filter (contains_query q) idx)))
       \<and> innerHTML (result_item \<lparr>title = Str t, text' = b, url = u, feed = f\<rparr>)
            = ''<a href="'' @ toString u @ ''">'' @ t
                @ ''</a><span class="search-feed">'' @ toString f @ ''</span>''
       \<and> toString Undefined = ''undefined''\<close>
proof -
  have long: "2 \<le> length (toLowerCase q)"
    using len by (simp add: length_toLowerCase)
  note on = onInput_long [OF long idx]
  have a: "fst (onInput q s) = None \<longleftrightarrow> list_all (readable q) idx"
    by (simp add: on)
  have b: "fst (onInput q s) = None \<or> onInput q s = (Some TypeError, s)"
    by (simp add: on)
  have c: "list_all string_fields idx \<longrightarrow>
            fst (onInput q s) = None
            \<and> appended (snd (onInput q s))
                = map result_item (take 10 (filter (contains_query q) idx))"
  proof
    assume "list_all string_fields idx"
    then have "list_all (readable q) idx"
      by (simp add: list_all_iff string_fields_readable)
    then show "fst (onInput q s) = None
            \<and> appended (snd (onInput q s))
                = map result_item (take 10 (filter (contains_query q) idx))"
      by (simp add: on displayResults_eq)
  qed
  have d: \<open>innerHTML (result_item \<lparr>title = Str t, text' = b, url = u, feed = f\<rparr>)
            = ''<a href="'' @ toString u @ ''">'' @ t
                @ ''</a><span class="search-feed">'' @ toString f @ ''</span>''\<close>
    by (simp add: result_item_def)
  from a b c d show ?thesis by simp
qed

lemma readable_cat: "list_all (readable ''cat'') [episode ''Episode One'' ''discusses cats'', bare]"
  by code_simp

lemma unreadable_dog: "\<not> list_all (readable ''dog'') [episode ''Episode One'' ''discusses cats'', bare]"
  by code_simp

theorem query_raises_on_missing_title_or_text_witness:
  "2 \<le> length ''cat'' \<and> 2 \<le> length ''dog''
   \<and> fst (onInput ''cat'' (loaded [episode ''Episode One'' ''discusses cats'', bare])) = None
   \<and> fst (onInput ''dog'' (loaded [episode ''Episode One'' ''discusses cats'', bare])) = Some TypeError"
proof -
  let ?s = "loaded [episode ''Episode One'' ''discusses cats'', bare]"
  have l1: "2 \<le> length ''cat''" and l2: "2 \<le> length ''dog''" by simp_all
  have idx: "searchIndex ?s = JArray [episode ''Episode One'' ''discusses cats'', bare]"
    by (rule searchIndex_loaded)
  note c = query_raises_on_missing_title_or_text [OF l1 idx,
      where t = "[]" and b = Undefined and u = Undefined and f = Undefined]
  note d = query_raises_on_missing_title_or_text [OF l2 idx,
      where t = "[]" and b = Undefined and u = Undefined and f = Undefined]
  from c readable_cat
  have "fst (onInput ''cat'' ?s) = None" by blast
  moreover from d unreadable_dog
  have n: "fst (onInput ''dog'' ?s) \<noteq> None" by blast
  from d n have "onInput ''dog'' ?s = (Some TypeError, ?s)" by blast
  then have "fst (onInput ''dog'' ?s) = Some TypeError" by simp
  ultimately show ?thesis using l1 l2 by blast
qed

text \<open>
  C2 as stated fails: an entry without a title makes the query raise, an entry without
  a text makes it raise as soon as the title does not contain the query, and an entry
  without url and feed is rendered with the text \<^verbatim>\<open>undefined\<close> in their place.
\<close>

theorem missing_title_raises_and_missing_feed_prints_undefined:
  \<open>fst (onInput ''cat'' (loaded [untitled])) = Some TypeError
   \<and> fst (onInput ''dog'' (loaded [bare])) = Some TypeError
   \<and> map innerHTML (appended (snd (onInput ''cat'' (loaded [bare]))))
       = [''<a href="undefined"><b>Cats</b></a><span class="search-feed">undefined</span>'']\<close>
  by code_simp

text \<open>
  C3. For every page and every input whose lowercased length is below 2, the listener
  raises nothing, leaves the region with no content and with the class
  \<^verbatim>\<open>hidden\<close>, and keeps the index; it does not read the index: with any other index
  in place, array or not, the outcome is the same.
\<close>

theorem short_query_hides_and_clears:
  assumes short: "length (toLowerCase v) < 2"
  shows "fst (onInput v s) = None
       \<and> markup (snd (onInput v s)) = []
       \<and> appended (snd (onInput v s)) = []
       \<and> ''hidden'' \<in> set (classList (snd (onInput v s)))
       \<and> searchIndex (snd (onInput v s)) = searchIndex s
       \<and> onInput v (s\<lparr>searchIndex := idx\<rparr>) = (None, (snd (onInput v s))\<lparr>searchIndex := idx\<rparr>)"
  by (simp add: onInput_short [OF short] hide_and_clear_def classList_add_mem)

theorem short_query_hides_and_clears_witness:
  "length (toLowerCase ''C'') < 2
   \<and> fst (onInput ''C'' (snd (onInput ''cat'' (loaded [episode ''Episode One'' ''discusses cats''])))) = None
   \<and> markup (snd (onInput ''C'' (snd (onInput ''cat'' (loaded [episode ''Episode One'' ''discusses cats'']))))) = []
   \<and> appended (snd (onInput ''C'' (snd (onInput ''cat'' (loaded [episode ''Episode One'' ''discusses cats'']))))) = []
   \<and> ''hidden'' \<in> set (classList (snd (onInput ''C'' (snd (onInput ''cat'' (loaded [episode ''Episode One'' ''discusses cats'']))))))"
proof -
  have short: "length (toLowerCase ''C'') < 2"
    by (simp add: length_toLowerCase)
  from short short_query_hides_and_clears [OF short, of "snd (onInput ''cat'' (loaded [episode ''Episode One'' ''discusses cats'']))" error_report]
  show ?thesis by blast
qed

text \<open>
  C4. If the index is empty, as it is from the start of the page until an index arrives,
  then every query of length at least 2 finds nothing, raises nothing, leaves the
  placeholder as the only content of the region and leaves the region without the class
  \<^verbatim>\<open>hidden\<close>.
\<close>

theorem empty_index_shows_placeholder:
  assumes empty: "searchIndex s = JArray []" and len: "2 \<le> length q"
  shows \<open>search (searchIndex s) (toLowerCase q) = Inr []
       \<and> fst (onInput q s) = None
       \<and> markup (snd (onInput q s)) = ''<div class="no-results">No results found</div>''
       \<and> appended (snd (onInput q s)) = []
       \<and> ''hidden'' \<notin> set (classList (snd (onInput q s)))
       \<and> searchIndex (run evs (DOMContentLoaded cl m)) = JArray []\<close>
proof -
  have long: "\<not> length (toLowerCase q) < 2"
    using len by (simp add: length_toLowerCase)
  have "onInput q s = (None, displayResults [] s)"
    using long by (simp add: onInput_empty_index [OF empty])
  moreover have "searchIndex (run evs (DOMContentLoaded cl m)) = JArray []"
    by (simp add: searchIndex_run DOMContentLoaded_def)
  ultimately show ?thesis
    using empty by (simp add: search_empty displayResults_eq classList_remove_mem no_results_def)
qed

theorem empty_index_shows_placeholder_witness:
  \<open>searchIndex (DOMContentLoaded [''hidden''] []) = JArray [] \<and> 2 \<le> length ''xyz123''
   \<and> onInput ''xyz123'' (DOMContentLoaded [''hidden''] [])
       = (None, (DOMContentLoaded [''hidden''] [])
                  \<lparr>classList := [], markup := ''<div class="no-results">No results found</div>''\<rparr>)
   \<and> fst (onInput ''xyz123'' (run [Click Elsewhere, Input ''x''] (DOMContentLoaded [''hidden''] []))) = None\<close>
proof -
  have e: "searchIndex (DOMContentLoaded [''hidden''] []) = JArray []"
    by (simp add: DOMContentLoaded_def)
  have l: "2 \<le> length ''xyz123''" by simp
  note t = empty_index_shows_placeholder [OF e l, of "[Click Elsewhere, Input ''x'']" "[''hidden'']" "[]"]
  note u = empty_index_shows_placeholder [OF _ l, of "run [Click Elsewhere, Input ''x''] (DOMContentLoaded [''hidden''] [])" "[]" "[]" "[]"]
  from t have pre: "searchIndex (run [Click Elsewhere, Input ''x''] (DOMContentLoaded [''hidden''] [])) = JArray []"
    by blast
  have \<open>onInput ''xyz123'' (DOMContentLoaded [''hidden''] [])
       = (None, (DOMContentLoaded [''hidden''] [])
                  \<lparr>classList := [], markup := ''<div class="no-results">No results found</div>''\<rparr>)\<close>
    by code_simp
  moreover from u [OF pre]
  have "fst (onInput ''xyz123'' (run [Click Elsewhere, Input ''x''] (DOMContentLoaded [''hidden''] []))) = None"
    by blast
  ultimately show ?thesis using e l by blast
qed

text \<open>
  C5 (as amended). When the request is rejected, or the payload is not JSON, one line goes to the
  console with the error, no further request is made, and the index stays empty whatever
  the user did before and does afterwards; every query afterwards, of any length, raises
  nothing, finds nothing and renders no entry.
\<close>

theorem failed_load_leaves_index_empty:
  assumes fail: "outcome = Rejected err \<or> outcome = Fulfilled (Response (Rejected err))"
  shows "console (fetch_settled outcome (run before (DOMContentLoaded cl m)))
           = [(''Failed to load search index'', err)]
       \<and> searchIndex (fetch_settled outcome (run before (DOMContentLoaded cl m))) = JArray []
       \<and> searchIndex (run after (fetch_settled outcome (run before (DOMContentLoaded cl m)))) = JArray []
       \<and> requests (run after (fetch_settled outcome (run before (DOMContentLoaded cl m))))
           = [''search.json'']
       \<and> console (run after (fetch_settled outcome (run before (DOMContentLoaded cl m))))
           = [(''Failed to load search index'', err)]
       \<and> search (searchIndex (run after (fetch_settled outcome (run before (DOMContentLoaded cl m)))))
            (toLowerCase v) = Inr []
       \<and> fst (onInput v (run after (fetch_settled outcome (run before (DOMContentLoaded cl m))))) = None
       \<and> appended (snd (onInput v (run after (fetch_settled outcome (run before (DOMContentLoaded cl m))))))
           = []"
proof -
  let ?s0 = "run before (DOMContentLoaded cl m)"
  let ?s1 = "fetch_settled outcome ?s0"
  let ?s2 = "run after ?s1"
  have s1: "?s1 = console_error ''Failed to load search index'' err ?s0"
    using fail by (auto simp: fetch_settled_def)
  have c0: "console ?s0 = []" and i0: "searchIndex ?s0 = JArray []" and r0: "requests ?s0 = [''search.json'']"
    by (simp_all add: console_run searchIndex_run requests_run DOMContentLoaded_def)
  have c1: "console ?s1 = [(''Failed to load search index'', err)]"
    by (simp add: s1 console_error_def c0)
  have i1: "searchIndex ?s1 = JArray []"
    by (simp add: s1 console_error_def i0)
  have r1: "requests ?s1 = [''search.json'']"
    by (simp add: s1 console_error_def r0)
  have i2: "searchIndex ?s2 = JArray []"
    by (simp only: searchIndex_run i1)
  have r2: "requests ?s2 = [''search.json'']"
    by (simp only: requests_run r1)
  have c2: "console ?s2 = [(''Failed to load search index'', err)]"
    by (simp only: console_run c1)
  have q: "search (searchIndex ?s2) (toLowerCase v) = Inr []"
    by (simp only: i2 search_empty)
  have o: "fst (onInput v ?s2) = None"
    by (simp add: onInput_empty_index [OF i2])
  have a: "appended (snd (onInput v ?s2)) = []"
    by (simp add: onInput_empty_index [OF i2] hide_and_clear_def displayResults_eq)
  from c1 i1 i2 r2 c2 q o a show ?thesis by blast
qed

theorem failed_load_leaves_index_empty_witness:
  "console (fetch_settled (Rejected NetworkError) (run [Input ''ca''] (DOMContentLoaded [''hidden''] [])))
           = [(''Failed to load search index'', NetworkError)]
   \<and> fst (onInput ''cat'' (run [Input ''c'', Click Elsewhere]
        (fetch_settled (Rejected NetworkError) (run [Input ''ca''] (DOMContentLoaded [''hidden''] []))))) = None
   \<and> searchIndex (run [Click Elsewhere]
        (fetch_settled (Fulfilled (Response (Rejected SyntaxError))) (run [] (DOMContentLoaded [''hidden''] [])))) = JArray []"
proof -
  note n = failed_load_leaves_index_empty [of "Rejected NetworkError" NetworkError
      "[Input ''ca'']" "[''hidden'']" "[]" "[Input ''c'', Click Elsewhere]" "''cat''"]
  note p = failed_load_leaves_index_empty [of "Fulfilled (Response (Rejected SyntaxError))" SyntaxError
      "[]" "[''hidden'']" "[]" "[Click Elsewhere]" "''cat''"]
  from n p show ?thesis by blast
qed

text \<open>
  C5 as stated fails for a payload that is malformed and still parses. The report of an
  error, or \<^verbatim>\<open>null\<close>, is stored as the index with no line on the console, the index
  is then not empty, and every query of length at least 2 raises a \<^verbatim>\<open>TypeError\<close>.
\<close>

theorem unreported_payload_breaks_queries:
  "console (misloaded error_report) = []
   \<and> searchIndex (misloaded error_report) = error_report
   \<and> error_report \<noteq> JArray []
   \<and> fst (onInput ''cat'' (misloaded error_report)) = Some TypeError
   \<and> console (misloaded JNull) = []
   \<and> searchIndex (misloaded JNull) = JNull
   \<and> fst (onInput ''cat'' (misloaded JNull)) = Some TypeError"
  by code_simp

text \<open>
  C6. A click whose target is neither the input control nor the result region nor
  inside the region leaves the region with the class \<^verbatim>\<open>hidden\<close> and changes nothing
  else, so the content of the region stays; a click on the input control, on the region
  or inside it changes nothing at all.
\<close>

theorem outside_click_hides_without_clearing:
  "(t \<noteq> InputControl \<and> t \<noteq> ResultRegion \<and> t \<noteq> InsideResultRegion \<longrightarrow>
      onClick t s = s\<lparr>classList := classList_add ''hidden'' (classList s)\<rparr>
      \<and> ''hidden'' \<in> set (classList (onClick t s))
      \<and> markup (onClick t s) = markup s
      \<and> appended (onClick t s) = appended s)
   \<and> (t = InputControl \<or> t = ResultRegion \<or> t = InsideResultRegion \<longrightarrow> onClick t s = s)"
  by (cases t) (simp_all add: onClick_def classList_add_mem)

theorem outside_click_hides_without_clearing_witness:
  "Elsewhere \<noteq> InputControl \<and> Elsewhere \<noteq> ResultRegion \<and> Elsewhere \<noteq> InsideResultRegion
   \<and> classList (onClick Elsewhere (snd (onInput ''cat'' (loaded [episode ''Episode One'' ''discusses cats'']))))
       = [''hidden'']
   \<and> appended (onClick Elsewhere (snd (onInput ''cat'' (loaded [episode ''Episode One'' ''discusses cats'']))))
       = [result_item (episode ''Episode One'' ''discusses cats'')]
   \<and> onClick InsideResultRegion (snd (onInput ''cat'' (loaded [episode ''Episode One'' ''discusses cats''])))
       = snd (onInput ''cat'' (loaded [episode ''Episode One'' ''discusses cats'']))"
proof -
  let ?s = "snd (onInput ''cat'' (loaded [episode ''Episode One'' ''discusses cats'']))"
  have ne: "Elsewhere \<noteq> InputControl \<and> Elsewhere \<noteq> ResultRegion \<and> Elsewhere \<noteq> InsideResultRegion"
    by simp
  have cl: "classList ?s = []" by code_simp
  have ap: "appended ?s = [result_item (episode ''Episode One'' ''discusses cats'')]" by code_simp
  note out = outside_click_hides_without_clearing [of Elsewhere ?s]
  note ins = outside_click_hides_without_clearing [of InsideResultRegion ?s]
  from out ne have "onClick Elsewhere ?s = ?s\<lparr>classList := classList_add ''hidden'' (classList ?s)\<rparr>"
    and a: "appended (onClick Elsewhere ?s) = appended ?s" by blast+
  then have "classList (onClick Elsewhere ?s) = [''hidden'']"
    by (simp add: cl classList_add_def)
  moreover from a have "appended (onClick Elsewhere ?s) = [result_item (episode ''Episode One'' ''discusses cats'')]"
    by (simp only: ap)
  moreover from ins have "onClick InsideResultRegion ?s = ?s" by blast
  ultimately show ?thesis using ne by blast
qed

text \<open>
  C7. Running the input listener a second time on the same input, with the index as it
  was, gives the same outcome as the first run: the same exception or none, the same
  page with the same content and class list of the region, and the same search result.
\<close>

theorem query_twice_same_output:
  "onInput v (snd (onInput v s)) = onInput v s
   \<and> search (searchIndex (snd (onInput v s))) (toLowerCase v) = search (searchIndex s) (toLowerCase v)"
proof -
  have "onInput v (snd (onInput v s)) = onInput v s"
  proof (cases "length (toLowerCase v) < 2")
    case True
    then show ?thesis
      by (simp add: onInput_short hide_and_clear_idem)
  next
    case False
    then have long: "2 \<le> length (toLowerCase v)" by simp
    show ?thesis
    proof (cases "\<exists>items. searchIndex s = JArray items")
      case True
      then obtain items where arr: "searchIndex s = JArray items" by blast
      show ?thesis
      proof (cases "list_all (readable v) items")
        case True
        let ?r = "take 10 (filter (contains_query v) items)"
        have first: "onInput v s = (None, displayResults ?r s)"
          using True by (simp add: onInput_long [OF long arr])
        have "searchIndex (displayResults ?r s) = JArray items"
          by (simp add: searchIndex_displayResults arr)
        from onInput_long [OF long this] True
        have "onInput v (displayResults ?r s) = (None, displayResults ?r (displayResults ?r s))"
          by simp
        with first show ?thesis by (simp add: displayResults_idem)
      next
        case False
        then show ?thesis by (simp add: onInput_long [OF long arr])
      qed
    next
      case False
      then show ?thesis by (simp add: onInput_not_array [OF long])
    qed
  qed
  then show ?thesis by (simp add: searchIndex_onInput)
qed

theorem query_twice_same_output_witness:
  "onInput ''Cat'' (snd (onInput ''Cat'' (loaded [episode ''Episode One'' ''discusses cats''])))
     = onInput ''Cat'' (loaded [episode ''Episode One'' ''discusses cats''])
   \<and> onInput ''c'' (snd (onInput ''c'' (loaded [untitled]))) = onInput ''c'' (loaded [untitled])
   \<and> onInput ''dog'' (snd (onInput ''dog'' (loaded [untitled]))) = (Some TypeError, loaded [untitled])"
proof -
  have "onInput ''dog'' (loaded [untitled]) = (Some TypeError, loaded [untitled])"
    by code_simp
  with query_twice_same_output [of "''Cat''" "loaded [episode ''Episode One'' ''discusses cats'']"]
    query_twice_same_output [of "''c''" "loaded [untitled]"]
    query_twice_same_output [of "''dog''" "loaded [untitled]"]
  show ?thesis by simp
qed

text \<open>
  C8. No listener changes the index: after the input listener, after the click
  listener, and after any sequence of user events the variable \<^verbatim>\<open>searchIndex\<close> holds
  the list it held before, with the same elements in the same order.
\<close>

theorem index_never_mutated:
  "searchIndex (snd (onInput v s)) = searchIndex s
   \<and> searchIndex (onClick t s) = searchIndex s
   \<and> searchIndex (run evs s) = searchIndex s"
  by (simp add: searchIndex_onInput searchIndex_onClick searchIndex_run)

theorem index_never_mutated_witness:
  "searchIndex (run [Input ''the'', Click Elsewhere, Input ''t'', Input ''zz'', Click ResultRegion]
     (loaded eleven)) = JArray eleven"
  using index_never_mutated [of "''the''" "loaded eleven" Elsewhere
      "[Input ''the'', Click Elsewhere, Input ''t'', Input ''zz'', Click ResultRegion]"]
  by (simp add: searchIndex_loaded)

text \<open>
  C9. Whatever the lowercasing function of the runtime is, the listener uses the input
  through its lowercased form only: two inputs with the same lowercased form have the same
  outcome; the gate is on the length of the lowercased input; and past the gate, on an
  index of entries with string title and text, the entries rendered are the first ten
  whose lowercased title or lowercased text has the lowercased input, as it is, as a
  substring. The listener of the page is this listener at \<open>toLowerCase\<close>. There the input
  of a space and the letter A is normalised to a space and the letter a, of length 2; it
  passes the gate and matches the title with a space before the a, not the title without.
\<close>

theorem normalization_is_lowercasing:
  "(lower v = lower w \<longrightarrow> onInput_by lower v s = onInput_by lower w s)
   \<and> (length (lower v) < 2 \<longrightarrow>
        onInput_by lower v s
          = (None, s\<lparr>classList := classList_add ''hidden'' (classList s),
                     markup := [], appended := []\<rparr>))
   \<and> (2 \<le> length (lower v) \<and> searchIndex s = JArray idx \<and> list_all string_fields idx \<longrightarrow>
        onInput_by lower v s
          = (None, displayResults
               (take 10 (filter (\<lambda>d. \<exists>t b. title d = Str t \<and> text' d = Str b
                    \<and> ((\<exists>ps ss. lower t = ps @ lower v @ ss)
                        \<or> (\<exists>ps ss. lower b = ps @ lower v @ ss))) idx)) s))
   \<and> onInput = onInput_by toLowerCase
   \<and> toLowerCase '' A'' = '' a''
   \<and> length (toLowerCase '' A'') = 2
   \<and> onInput '' A'' (loaded [episode ''a'' ''a'', episode ''a a'' ''a''])
        = (None, displayResults [episode ''a a'' ''a'']
                   (loaded [episode ''a'' ''a'', episode ''a a'' ''a'']))"
proof -
  have a: "lower v = lower w \<longrightarrow> onInput_by lower v s = onInput_by lower w s"
    by (simp add: onInput_by_def)
  have b: "length (lower v) < 2 \<longrightarrow>
        onInput_by lower v s
          = (None, s\<lparr>classList := classList_add ''hidden'' (classList s),
                     markup := [], appended := []\<rparr>)"
    by (simp add: onInput_by_def set_innerHTML_def Let_def)
  have c: "2 \<le> length (lower v) \<and> searchIndex s = JArray idx \<and> list_all string_fields idx \<longrightarrow>
        onInput_by lower v s
          = (None, displayResults
               (take 10 (filter (\<lambda>d. \<exists>t b. title d = Str t \<and> text' d = Str b
                    \<and> ((\<exists>ps ss. lower t = ps @ lower v @ ss)
                        \<or> (\<exists>ps ss. lower b = ps @ lower v @ ss))) idx)) s)"
  proof
    assume h: "2 \<le> length (lower v) \<and> searchIndex s = JArray idx \<and> list_all string_fields idx"
    then have "search_by lower (searchIndex s) (lower v)
        = Inr (take 10 (filter (\<lambda>d. \<exists>t b. title d = Str t \<and> text' d = Str b
                    \<and> ((\<exists>ps ss. lower t = ps @ lower v @ ss)
                        \<or> (\<exists>ps ss. lower b = ps @ lower v @ ss))) idx))"
      by (simp add: search_by_strings str_includes_iff)
    with h show "onInput_by lower v s
          = (None, displayResults
               (take 10 (filter (\<lambda>d. \<exists>t b. title d = Str t \<and> text' d = Str b
                    \<and> ((\<exists>ps ss. lower t = ps @ lower v @ ss)
                        \<or> (\<exists>ps ss. lower b = ps @ lower v @ ss))) idx)) s)"
      by (simp add: onInput_by_def Let_def)
  qed
  have d: "onInput = onInput_by toLowerCase"
    by (rule onInput_def)
  have e: "toLowerCase '' A'' = '' a''" by code_simp
  have f: "length (toLowerCase '' A'') = 2"
    by (simp add: e)
  have g: "onInput '' A'' (loaded [episode ''a'' ''a'', episode ''a a'' ''a''])
        = (None, displayResults [episode ''a a'' ''a'']
                   (loaded [episode ''a'' ''a'', episode ''a a'' ''a'']))"
    by code_simp
  from a b c d e f g show ?thesis by blast
qed

lemma dotted_lower_I: "dotted_lower ''I'' = ''i.''"
  by code_simp

lemma dotted_lower_titles: "dotted_lower ''Hi.'' = ''hi.''" "dotted_lower ''Hi'' = ''hi''"
  "dotted_lower ''x'' = ''x''" "dotted_lower ''y'' = ''y''"
  by code_simp+

theorem normalization_is_lowercasing_witness:
  "toLowerCase '' A'' = toLowerCase '' a''
   \<and> onInput_by toLowerCase '' A'' (loaded [episode ''a'' ''a'', episode ''a a'' ''a''])
        = onInput_by toLowerCase '' a'' (loaded [episode ''a'' ''a'', episode ''a a'' ''a''])
   \<and> length ''I'' < 2
   \<and> 2 \<le> length (dotted_lower ''I'')
   \<and> list_all string_fields [episode ''Hi.'' ''x'', episode ''Hi'' ''y'']
   \<and> onInput_by dotted_lower ''I'' (loaded [episode ''Hi.'' ''x'', episode ''Hi'' ''y''])
        = (None, displayResults [episode ''Hi.'' ''x'']
                   (loaded [episode ''Hi.'' ''x'', episode ''Hi'' ''y'']))
   \<and> length (dotted_lower ''i'') < 2
   \<and> fst (onInput_by dotted_lower ''i'' (loaded [episode ''Hi.'' ''x'', episode ''Hi'' ''y''])) = None"
proof -
  let ?aa = "loaded [episode ''a'' ''a'', episode ''a a'' ''a'']"
  let ?hi = "loaded [episode ''Hi.'' ''x'', episode ''Hi'' ''y'']"
  have same: "toLowerCase '' A'' = toLowerCase '' a''" by code_simp
  have strs: "list_all string_fields [episode ''Hi.'' ''x'', episode ''Hi'' ''y'']"
    by (simp add: episode_def string_fields_def)
  have long: "2 \<le> length (dotted_lower ''I'')"
    by (simp add: dotted_lower_I)
  have short: "length (dotted_lower ''i'') < 2" by code_simp
  note t1 = normalization_is_lowercasing [of toLowerCase "'' A''" "'' a''" ?aa "[]"]
  note t2 = normalization_is_lowercasing [of dotted_lower "''I''" "''I''" ?hi
      "[episode ''Hi.'' ''x'', episode ''Hi'' ''y'']"]
  note t3 = normalization_is_lowercasing [of dotted_lower "''i''" "''i''" ?hi "[]"]
  from t1 same have one: "onInput_by toLowerCase '' A'' ?aa = onInput_by toLowerCase '' a'' ?aa"
    by blast
  from t2 long strs searchIndex_loaded [of "[episode ''Hi.'' ''x'', episode ''Hi'' ''y'']"]
  have "onInput_by dotted_lower ''I'' ?hi
          = (None, displayResults
               (take 10 (filter (\<lambda>d. \<exists>t b. title d = Str t \<and> text' d = Str b
                    \<and> ((\<exists>ps ss. dotted_lower t = ps @ dotted_lower ''I'' @ ss)
                        \<or> (\<exists>ps ss. dotted_lower b = ps @ dotted_lower ''I'' @ ss)))
                  [episode ''Hi.'' ''x'', episode ''Hi'' ''y''])) ?hi)"
    by blast
  from this [folded str_includes_iff]
  have two: "onInput_by dotted_lower ''I'' ?hi = (None, displayResults [episode ''Hi.'' ''x''] ?hi)"
    by (simp add: episode_def dotted_lower_I dotted_lower_titles)
  from t3 short have "onInput_by dotted_lower ''i'' ?hi
          = (None, ?hi\<lparr>classList := classList_add ''hidden'' (classList ?hi),
                     markup := [], appended := []\<rparr>)"
    by blast
  then have three: "fst (onInput_by dotted_lower ''i'' ?hi) = None" by simp
  from same one long strs two short three show ?thesis by simp
qed

text \<open>
  C10. Every rendered entry is a \<^verbatim>\<open>div\<close> of class \<^verbatim>\<open>search-result-item\<close> whose
  markup is the template with the url, the title and the feed of the document put in as
  they are, nothing escaped; a missing field is put in as the text \<^verbatim>\<open>undefined\<close>.
  The title of a rendered document is never missing, since the filter read it.
\<close>

theorem result_markup_is_unescaped_interpolation:
  assumes long: "2 \<le> length (toLowerCase v)"
    and found: "search (searchIndex s) (toLowerCase v) = Inr results"
    and some: "results \<noteq> []"
  shows \<open>markup (snd (onInput v s)) = []
       \<and> appended (snd (onInput v s))
           = map (\<lambda>item. \<lparr>tagName = ''div'', className = ''search-result-item'',
                    innerHTML = ''<a href="'' @ toString (url item) @ ''">'' @ toString (title item)
                      @ ''</a><span class="search-feed">'' @ toString (feed item) @ ''</span>''\<rparr>)
               results
       \<and> toString Undefined = ''undefined''
       \<and> toString (Str x) = x
       \<and> list_all (\<lambda>item. title item \<noteq> Undefined) results\<close>
proof -
  have on: "onInput v s = (None, displayResults results s)"
    using long found by (simp add: onInput_unfold Let_def)
  have item: \<open>result_item = (\<lambda>item. \<lparr>tagName = ''div'', className = ''search-result-item'',
                    innerHTML = ''<a href="'' @ toString (url item) @ ''">'' @ toString (title item)
                      @ ''</a><span class="search-feed">'' @ toString (feed item) @ ''</span>''\<rparr>)\<close>
    by (rule ext) (simp add: result_item_def)
  have a: "markup (snd (onInput v s)) = []"
    using some by (simp add: on displayResults_eq)
  have "appended (snd (onInput v s)) = map result_item results"
    using some by (simp add: on displayResults_eq)
  then have b: \<open>appended (snd (onInput v s))
           = map (\<lambda>item. \<lparr>tagName = ''div'', className = ''search-result-item'',
                    innerHTML = ''<a href="'' @ toString (url item) @ ''">'' @ toString (title item)
                      @ ''</a><span class="search-feed">'' @ toString (feed item) @ ''</span>''\<rparr>)
               results\<close>
    by (simp only: item)
  obtain idx where arr: "searchIndex s = JArray idx"
    using found search_not_array [of "searchIndex s" "toLowerCase v"]
    by (cases "searchIndex s") auto
  have rd: "list_all (readable v) idx"
    and res: "results = take 10 (filter (contains_query v) idx)"
    using found by (simp_all add: arr search_eq split: if_splits)
  have "set results \<subseteq> set idx"
    unfolding res by (meson set_take_subset filter_is_subset subset_trans)
  with rd have c: "list_all (\<lambda>item. title item \<noteq> Undefined) results"
    by (auto simp: list_all_iff readable_def)
  from a b c show ?thesis by simp
qed

theorem result_markup_is_unescaped_interpolation_witness:
  \<open>2 \<le> length (toLowerCase ''cat'')
   \<and> search (searchIndex (loaded [bare])) (toLowerCase ''cat'') = Inr [bare]
   \<and> [bare] \<noteq> []
   \<and> appended (snd (onInput ''cat'' (loaded [bare])))
       = [\<lparr>tagName = ''div'', className = ''search-result-item'',
           innerHTML = ''<a href="undefined"><b>Cats</b></a><span class="search-feed">undefined</span>''\<rparr>]\<close>
proof -
  have long: "2 \<le> length (toLowerCase ''cat'')"
    by (simp add: length_toLowerCase)
  have found: "search (searchIndex (loaded [bare])) (toLowerCase ''cat'') = Inr [bare]"
    by code_simp
  have some: "[bare] \<noteq> []" by simp
  note t = result_markup_is_unescaped_interpolation [OF long found some]
  from t have \<open>appended (snd (onInput ''cat'' (loaded [bare])))
       = [\<lparr>tagName = ''div'', className = ''search-result-item'',
           innerHTML = ''<a href="undefined"><b>Cats</b></a><span class="search-feed">undefined</span>''\<rparr>]\<close>
    by (simp add: bare_def)
  with long found some show ?thesis by blast
qed

end
